theory Spec2Isabelle
  imports Main "HOL-Library.Sublist"
begin

section \<open>OddsExtractor: the flexible parser and the sheet manager\<close>

text \<open>
  This theory embeds two Python modules: \<^verbatim>\<open>turkish_parser1.py\<close> (class
  \<^verbatim>\<open>FlexibleTurkishParser\<close>, class \<^verbatim>\<open>FlexibleSheetsManager\<close> and the processing
  pass of \<^verbatim>\<open>main\<close>) and \<^verbatim>\<open>sheets1.py\<close> (class \<^verbatim>\<open>GoogleSheetsManager\<close>).

  Scope of the character model. A Python \<^verbatim>\<open>str\<close> is modelled as a \<^typ>\<open>string\<close> whose
  characters are ASCII code points; \<^verbatim>\<open>isspace\<close>, \<^verbatim>\<open>isalpha\<close>, \<^verbatim>\<open>isdigit\<close>,
  \<^verbatim>\<open>upper\<close> and the regular-expression classes \<^verbatim>\<open>\s\<close> and \<^verbatim>\<open>\d\<close> are given
  their values on that range, and the statements that depend on them carry the hypothesis
  \<open>ascii_text\<close> on their lines: outside ASCII Python knows further whitespace, letters and
  case pairs (the no-break space, the Latin-1 letters, the sharp s) that the model does not.
  Literals of the source that contain characters outside ASCII (four entries of
  \<^verbatim>\<open>skip_terms\<close>, the extra members of the dash class and of the class for the digit
  three in \<^verbatim>\<open>find_hidden_score\<close>, the column headers) cannot match an ASCII line; the
  places where they are left out are marked.

  Scope of the arithmetic. The two comparisons of a count with a float product,
  \<^verbatim>\<open>letter_count >= len(word) * 0.7\<close> and \<^verbatim>\<open>letter_count >= total_chars * 0.6\<close>,
  are written over the naturals as \<open>7 * len \<le> 10 * count\<close> and \<open>3 * len \<le> 5 * count\<close>.
  Both doubles lie just below 7/10 and 3/5, the product is rounded monotonically and an integer
  bound is representable, so for every length a string can have the float comparison and the
  integer comparison agree. The range test of \<^verbatim>\<open>is_odds_value\<close>
  is written over hundredths for the same reason: \<^verbatim>\<open>float\<close> maps the decimals with two
  fractional digits monotonically and injectively to doubles.
\<close>

subsection \<open>Python values, errors, dictionaries\<close>

datatype error = KeyError string | TypeError string | RuntimeError string

datatype pyval = PNone | PStr string | PList "string list"

type_synonym pydict = "string \<rightharpoonup> pyval"

text \<open>\<^verbatim>\<open>d[k]\<close> raises \<^verbatim>\<open>KeyError\<close> on a missing key.\<close>

definition getitem :: "pydict \<Rightarrow> string \<Rightarrow> error + pyval" where
  "getitem d k = (case d k of None \<Rightarrow> Inl (KeyError k) | Some v \<Rightarrow> Inr v)"

fun truthy :: "pyval \<Rightarrow> bool" where
  "truthy PNone = False"
| "truthy (PStr s) = (s \<noteq> [])"
| "truthy (PList xs) = (xs \<noteq> [])"

text \<open>Iterating a value: a string yields its characters as one-character strings.\<close>

fun py_iter :: "pyval \<Rightarrow> error + string list" where
  "py_iter PNone = Inl (TypeError ''NoneType object is not iterable'')"
| "py_iter (PStr s) = Inr (map (\<lambda>c. [c]) s)"
| "py_iter (PList xs) = Inr xs"

fun py_len :: "pyval \<Rightarrow> error + nat" where
  "py_len PNone = Inl (TypeError ''object of type NoneType has no len()'')"
| "py_len (PStr s) = Inr (length s)"
| "py_len (PList xs) = Inr (length xs)"

definition py_or :: "pyval \<Rightarrow> pyval \<Rightarrow> pyval" where
  "py_or a b = (if truthy a then a else b)"

subsection \<open>Characters and strings\<close>

text \<open>
  The ASCII characters for which \<^verbatim>\<open>str.isspace\<close> holds; \<^verbatim>\<open>str.strip\<close>,
  \<^verbatim>\<open>str.split\<close> and the class \<^verbatim>\<open>\s\<close> use the same set.
\<close>

definition isspace :: "char \<Rightarrow> bool" where
  "isspace c = (c \<in> set [CHR 0x09, CHR 0x0A, CHR 0x0B, CHR 0x0C, CHR 0x0D,
                          CHR 0x1C, CHR 0x1D, CHR 0x1E, CHR 0x1F, CHR '' ''])"

definition isdigit :: "char \<Rightarrow> bool" where
  "isdigit c = (c \<in> set ''0123456789'')"

definition isalpha :: "char \<Rightarrow> bool" where
  "isalpha c = (c \<in> set ''ABCDEFGHIJKLMNOPQRSTUVWXYZabcdefghijklmnopqrstuvwxyz'')"

definition upper_char :: "char \<Rightarrow> char" where
  "upper_char c =
     (case map_of (zip ''abcdefghijklmnopqrstuvwxyz'' ''ABCDEFGHIJKLMNOPQRSTUVWXYZ'') c of
        None \<Rightarrow> c | Some u \<Rightarrow> u)"

definition upper :: "string \<Rightarrow> string" where
  "upper s = map upper_char s"

text \<open>
  The lines the character model covers: every character is an ASCII code point. The
  statements below that depend on the classes of characters are made for such lines.
\<close>

definition ascii_text :: "string \<Rightarrow> bool" where
  "ascii_text s = list_all (\<lambda>c. (of_char c :: nat) < 128) s"

definition strip :: "string \<Rightarrow> string" where
  "strip s = rev (dropWhile isspace (rev (dropWhile isspace s)))"

text \<open>
  \<^verbatim>\<open>s.split()\<close>: the maximal runs of non-whitespace characters, in order.
  \<open>cur\<close> is the word being read.
\<close>

fun split_from :: "string \<Rightarrow> string \<Rightarrow> string list" where
  "split_from cur [] = (if cur = [] then [] else [cur])"
| "split_from cur (c # cs) =
     (if isspace c then (if cur = [] then split_from [] cs else cur # split_from [] cs)
      else split_from (cur @ [c]) cs)"

definition split :: "string \<Rightarrow> string list" where
  "split s = split_from [] s"

text \<open>\<^verbatim>\<open>s.replace(a, b)\<close> for one-character \<open>a\<close> and \<open>b\<close>, and \<^verbatim>\<open>s.replace(a, '')\<close>.\<close>

definition replace_char :: "char \<Rightarrow> char \<Rightarrow> string \<Rightarrow> string" where
  "replace_char a b s = map (\<lambda>c. if c = a then b else c) s"

definition remove_char :: "char \<Rightarrow> string \<Rightarrow> string" where
  "remove_char a s = filter (\<lambda>c. c \<noteq> a) s"

text \<open>\<^verbatim>\<open>t in s\<close> on strings: \<open>t\<close> occurs in \<open>s\<close> as a contiguous block.\<close>

fun contains :: "string \<Rightarrow> string \<Rightarrow> bool" where
  "contains t [] = (t = [])"
| "contains t (c # cs) = (prefix t (c # cs) \<or> contains t cs)"

fun join :: "string \<Rightarrow> string list \<Rightarrow> string" where
  "join sep [] = []"
| "join sep [x] = x"
| "join sep (x # y # ys) = x @ sep @ join sep (y # ys)"

text \<open>The decimal rendering of a length inside an f-string.\<close>

fun str_of_nat :: "nat \<Rightarrow> string" where
  "str_of_nat n =
     (if n < 10 then [''0123456789'' ! n]
      else str_of_nat (n div 10) @ [''0123456789'' ! (n mod 10)])"

declare str_of_nat.simps [simp del]

subsection \<open>\<^verbatim>\<open>FlexibleTurkishParser.clean_text\<close>\<close>

text \<open>
  \<^verbatim>\<open>re.sub(r'\s+', ' ', text.strip())\<close>: every maximal run of whitespace becomes one
  space. \<open>in_run\<close> tells that the previous character was whitespace.
\<close>

fun collapse_from :: "bool \<Rightarrow> string \<Rightarrow> string" where
  "collapse_from in_run [] = []"
| "collapse_from in_run (c # cs) =
     (if isspace c then (if in_run then collapse_from True cs else CHR '' '' # collapse_from True cs)
      else c # collapse_from False cs)"

definition collapse_ws :: "string \<Rightarrow> string" where
  "collapse_ws s = collapse_from False s"

definition clean_text :: "string \<Rightarrow> string" where
  "clean_text text = collapse_ws (strip text)"

subsection \<open>\<^verbatim>\<open>is_team_match\<close> and \<^verbatim>\<open>is_odds_value\<close>\<close>

text \<open>
  \<^verbatim>\<open>re.match(r'^[\d\-\s:\.,%]+$', line)\<close>. The class contains the newline, so the
  \<^verbatim>\<open>$\<close> that also matches before a final newline adds nothing: the line matches
  exactly when it is not empty and all its characters are in the class.
\<close>

definition pure_numeric :: "string \<Rightarrow> bool" where
  "pure_numeric line =
     (line \<noteq> [] \<and> list_all (\<lambda>c. isdigit c \<or> isspace c \<or> c \<in> set ''-:.,%'') line)"

text \<open>
  \<^verbatim>\<open>skip_terms\<close>, in the order of the source. Its entries 4, 5, 6 and 26 contain
  characters outside ASCII, upper-casing keeps them outside ASCII, and so they occur in no
  ASCII line; they are left out.
\<close>

definition skip_terms :: "string list" where
  "skip_terms =
     [''Detay'', ''Kadro'', ''Anlatim'', ''Forum'',
      ''Quick search'', ''NESINE'', ''OLEY'', ''MISLI'', ''tuttur'', ''BILYONER'',
      ''ALT/UST'', ''Alt/Ust'', ''SONUC'', ''SANS'', ''HANDICAP'', ''Var'', ''Yok'',
      ''Evet'', ''Hayir'', ''PEN'', ''mackolik'', ''Gol'']"

text \<open>\<^verbatim>\<open>common_words\<close>: the sixteen one-letter strings from A to P.\<close>

definition common_words :: "string list" where
  "common_words = map (\<lambda>c. [c]) ''ABCDEFGHIJKLMNOP''"

definition letter_count :: "string \<Rightarrow> nat" where
  "letter_count s = length (filter isalpha s)"

definition is_team_match :: "string \<Rightarrow> bool" where
  "is_team_match line0 =
     (let line = strip line0 in
      if length line < 3 then False
      else if pure_numeric line then False
      else if list_ex (\<lambda>trm. contains (upper trm) (upper line)) skip_terms then False
      else if \<not> list_ex isalpha line then False
      else if upper line \<in> set common_words then False
      else
        (let words = split line in
         if length words = 1 then
           (let word = words ! 0 in
            if length word \<ge> 4 \<and> 7 * length word \<le> 10 * letter_count word then True
            else False)
         else if 2 \<le> length words \<and> length words \<le> 5 then
           (let total_chars = length (remove_char CHR ''.'' (remove_char CHR '' '' line)) in
            if 3 * total_chars \<le> 5 * letter_count line then True else False)
         else False))"

text \<open>
  The shape \<^verbatim>\<open>\d{1,2}[,\.]\d{2}\<close>, and \<^verbatim>\<open>re.match\<close> of it between \<^verbatim>\<open>^\<close>
  and \<^verbatim>\<open>$\<close>: the whole line has the shape, or the line ends in a newline and the rest
  has it.
\<close>

definition odds_form :: "string \<Rightarrow> bool" where
  "odds_form s =
     ((length s = 4 \<or> length s = 5) \<and>
      list_all isdigit (take (length s - 3) s) \<and>
      s ! (length s - 3) \<in> set '',.'' \<and>
      list_all isdigit (drop (length s - 2) s))"

definition re_match_odds :: "string \<Rightarrow> bool" where
  "re_match_odds line =
     (odds_form line \<or> (line \<noteq> [] \<and> last line = CHR 0x0A \<and> odds_form (butlast line)))"

definition digit_val :: "char \<Rightarrow> nat" where
  "digit_val c = (of_char c :: nat) - 48"

text \<open>
  The number a line of that shape denotes, in hundredths: \<^verbatim>\<open>float\<close> of
  \<^verbatim>\<open>''12,50''\<close> with the comma replaced is 12.5, that is 1250 hundredths.
\<close>

definition odds_cents :: "string \<Rightarrow> nat" where
  "odds_cents s = foldl (\<lambda>acc c. 10 * acc + digit_val c) 0 (filter isdigit s)"

definition is_odds_value :: "string \<Rightarrow> bool" where
  "is_odds_value line0 =
     (let line = strip line0 in
      if re_match_odds line then 101 \<le> odds_cents line \<and> odds_cents line \<le> 10000
      else False)"

subsection \<open>\<^verbatim>\<open>find_hidden_score\<close>\<close>

text \<open>
  The five patterns of \<^verbatim>\<open>potential_scores\<close> are sequences of character classes and
  \<^verbatim>\<open>\s*\<close>. They are searched with \<^verbatim>\<open>re.IGNORECASE\<close>, so a class is compared
  up to case. No class of these patterns contains whitespace, hence the greedy \<^verbatim>\<open>\s*\<close>
  never gives a character back and skipping the whole run is exact.
\<close>

datatype atom = Cls string | WsStar

fun in_class_ci :: "string \<Rightarrow> char \<Rightarrow> bool" where
  "in_class_ci cls c = (upper_char c \<in> upper_char ` set cls)"

fun match_atoms :: "atom list \<Rightarrow> string \<Rightarrow> bool" where
  "match_atoms [] s = True"
| "match_atoms (Cls cls # as) [] = False"
| "match_atoms (Cls cls # as) (c # cs) = (in_class_ci cls c \<and> match_atoms as cs)"
| "match_atoms (WsStar # as) s = match_atoms as (dropWhile isspace s)"

fun re_search_ci :: "atom list \<Rightarrow> string \<Rightarrow> bool" where
  "re_search_ci p [] = match_atoms p []"
| "re_search_ci p (c # cs) = (match_atoms p (c # cs) \<or> re_search_ci p cs)"

text \<open>
  The dash class of the source lists the hyphen twice and then characters outside ASCII;
  so does the class for the digit three. On ASCII lines they are \<open>-\<close> and \<open>3\<close>.
\<close>

definition potential_scores :: "atom list list" where
  "potential_scores =
     [[Cls ''IO1l|'', WsStar, Cls ''-'', WsStar, Cls ''O0oQ''],
      [Cls ''IO1l|'', WsStar, Cls ''-'', WsStar, Cls ''IO1l|''],
      [Cls ''2zZ'', WsStar, Cls ''-'', WsStar, Cls ''O0oQ''],
      [Cls ''2zZ'', WsStar, Cls ''-'', WsStar, Cls ''IO1l|''],
      [Cls ''3'', WsStar, Cls ''-'', WsStar, Cls ''O0oQ'']]"

text \<open>The three chains of \<^verbatim>\<open>replace\<close> and the \<^verbatim>\<open>re.sub\<close> of the dash class.\<close>

definition normalize_glyphs :: "string \<Rightarrow> string" where
  "normalize_glyphs line =
     (let normalized = replace_char CHR ''|'' CHR ''1''
                         (replace_char CHR ''l'' CHR ''1'' (replace_char CHR ''I'' CHR ''1'' line));
          normalized = replace_char CHR ''Q'' CHR ''0''
                         (replace_char CHR ''o'' CHR ''0'' (replace_char CHR ''O'' CHR ''0'' normalized))
      in map (\<lambda>c. if c \<in> set ''-'' then CHR ''-'' else c) normalized)"

text \<open>
  \<^verbatim>\<open>re.search(r'(\d\s*-\s*\d)', normalized)\<close>: \<open>score_here\<close> matches at the start of
  its argument and returns the matched text, \<open>score_search\<close> takes the leftmost match.
\<close>

definition score_here :: "string \<Rightarrow> string option" where
  "score_here s =
     (case s of
        [] \<Rightarrow> None
      | d1 # r \<Rightarrow>
          if isdigit d1 then
            (case dropWhile isspace r of
               [] \<Rightarrow> None
             | h # r2 \<Rightarrow>
                 if h = CHR ''-'' then
                   (case dropWhile isspace r2 of
                      [] \<Rightarrow> None
                    | d2 # _ \<Rightarrow>
                        if isdigit d2
                        then Some (d1 # takeWhile isspace r @ CHR ''-'' # takeWhile isspace r2 @ [d2])
                        else None)
                 else None)
          else None)"

fun score_search :: "string \<Rightarrow> string option" where
  "score_search [] = None"
| "score_search (c # cs) =
     (case score_here (c # cs) of Some m \<Rightarrow> Some m | None \<Rightarrow> score_search cs)"

text \<open>
  The inner loop over the patterns for one cleaned line. A pattern that matches while the
  normalized line holds no digit-dash-digit lets the loop go on with the next pattern.
\<close>

fun try_patterns :: "atom list list \<Rightarrow> string \<Rightarrow> string option" where
  "try_patterns [] line = None"
| "try_patterns (pattern # rest) line =
     (if re_search_ci pattern line then
        (case score_search (normalize_glyphs line) of
           Some m \<Rightarrow> Some (remove_char CHR '' '' m)
         | None \<Rightarrow> try_patterns rest line)
      else try_patterns rest line)"

fun find_hidden_score :: "string list \<Rightarrow> string option" where
  "find_hidden_score [] = None"
| "find_hidden_score (line # ocr_lines) =
     (case try_patterns potential_scores (clean_text line) of
        Some score \<Rightarrow> Some score
      | None \<Rightarrow> find_hidden_score ocr_lines)"

subsection \<open>\<^verbatim>\<open>extract_all_data\<close>\<close>

text \<open>
  The test of lines 169 to 174 that admits a cleaned line to \<^verbatim>\<open>team_candidates\<close>.
  It is written inline in the source; \<^verbatim>\<open>is_team_match\<close> is not called.
\<close>

definition team_candidate_test :: "string \<Rightarrow> bool" where
  "team_candidate_test line =
     (length line \<ge> 3 \<and>
      \<not> pure_numeric line \<and>
      upper line \<notin> set [''DETAY'', ''KADRO'', ''ISTATISTIK'', ''IDDAA'', ''FORUM'', ''MACKOLIK'', ''MS''] \<and>
      \<not> list_ex (\<lambda>site. contains site (upper line))
            [''NESINE'', ''NESTNE'', ''OLEY'', ''MISLI'', ''MMISLI'', ''TUTTUR''] \<and>
      \<not> list_ex (\<lambda>ui. contains ui (upper line))
            [''EV'', ''DEP'', ''DCP'', ''SONUCU'', ''YARI'', ''TOPLAM'', ''ROOTED''])"

text \<open>
  The three lists the loop over the lines fills: \<^verbatim>\<open>data['all_text']\<close>,
  \<^verbatim>\<open>data['odds']\<close> and the local \<^verbatim>\<open>team_candidates\<close>. The loop also prints; the
  test of line 161 only guards a print.
\<close>

record scan =
  sc_all_text :: "string list"
  sc_odds :: "string list"
  sc_team_candidates :: "string list"

fun scan_lines :: "string list \<Rightarrow> scan \<Rightarrow> scan" where
  "scan_lines [] acc = acc"
| "scan_lines (raw # ocr_lines) acc =
     (let line = clean_text raw in
      if length line < 1 then scan_lines ocr_lines acc
      else
        (let acc = acc\<lparr>sc_all_text := sc_all_text acc @ [line]\<rparr>;
             acc = (if re_match_odds line then acc\<lparr>sc_odds := sc_odds acc @ [line]\<rparr> else acc);
             acc = (if team_candidate_test line
                    then acc\<lparr>sc_team_candidates := sc_team_candidates acc @ [line]\<rparr> else acc)
         in scan_lines ocr_lines acc))"

definition scan_capture :: "string list \<Rightarrow> scan" where
  "scan_capture ocr_lines = scan_lines ocr_lines \<lparr>sc_all_text = [], sc_odds = [], sc_team_candidates = []\<rparr>"

definition resolve_teams :: "string list \<Rightarrow> pyval" where
  "resolve_teams cands =
     (if length cands \<ge> 2 then PStr (cands ! 0 @ '' - '' @ cands ! 1)
      else if length cands \<ge> 1 then PStr (cands ! 0)
      else PNone)"

text \<open>The returned dictionary has the five keys of the literal that initialises it.\<close>

definition extract_all_data :: "string list \<Rightarrow> pydict" where
  "extract_all_data ocr_lines =
     (let sc = scan_capture ocr_lines;
          hidden_score = find_hidden_score (sc_all_text sc);
          ft = (case hidden_score of
                  Some h \<Rightarrow> if h \<noteq> [] then PStr h else PStr ''0-0''
                | None \<Rightarrow> PStr ''0-0'')
      in [''teams'' \<mapsto> resolve_teams (sc_team_candidates sc),
          ''ht_score'' \<mapsto> PNone,
          ''ft_score'' \<mapsto> ft,
          ''odds'' \<mapsto> PList (sc_odds sc),
          ''all_text'' \<mapsto> PList (sc_all_text sc)])"

subsection \<open>\<^verbatim>\<open>create_flexible_row\<close>\<close>

text \<open>\<^verbatim>\<open>while len(odds) < 15: odds.append('0')\<close>\<close>

function pad_odds :: "string list \<Rightarrow> string list" where
  "pad_odds odds = (if length odds < 15 then pad_odds (odds @ [''0'']) else odds)"
  by pat_completeness auto
termination
  by (relation "measure (\<lambda>odds. 15 - length odds)") auto

declare pad_odds.simps [simp del]

text \<open>
  Lines 211 to 216, entered when \<^verbatim>\<open>data['teams']\<close> is falsy. \<open>now_hms\<close> is the value of
  \<^verbatim>\<open>datetime.now().strftime('%H:%M:%S')\<close> at line 216.
\<close>

definition synth_teams :: "pydict \<Rightarrow> string \<Rightarrow> error + pyval" where
  "synth_teams data now_hms =
     (case getitem data ''categories'' of
        Inl e \<Rightarrow> Inl e
      | Inr categories \<Rightarrow>
          if truthy categories then
            (case py_iter categories of
               Inl e \<Rightarrow> Inl e
             | Inr cs \<Rightarrow> Inr (PStr (''Data from: '' @ join '' | '' (take 2 cs))))
          else
            (case getitem data ''betting_sites'' of
               Inl e \<Rightarrow> Inl e
             | Inr betting_sites \<Rightarrow>
                 if truthy betting_sites then
                   (case py_iter betting_sites of
                      Inl e \<Rightarrow> Inl e
                    | Inr bs \<Rightarrow> Inr (PStr (''Betting data: '' @ join '' | '' (take 2 bs))))
                 else Inr (PStr (''Odds data '' @ now_hms))))"

text \<open>
  The row, or the exception the call raises. \<open>now_full\<close> is the value of
  \<^verbatim>\<open>datetime.now().strftime("%Y-%m-%d %H:%M:%S")\<close> at line 247. The subexpressions are
  evaluated in the order of the source.
\<close>

definition create_flexible_row :: "pydict \<Rightarrow> string \<Rightarrow> string \<Rightarrow> error + pyval list" where
  "create_flexible_row data now_hms now_full =
     (case getitem data ''odds'' of
        Inl e \<Rightarrow> Inl e
      | Inr raw_odds \<Rightarrow>
     (case py_iter raw_odds of
        Inl e \<Rightarrow> Inl e
      | Inr odd_list \<Rightarrow>
     (let odds = pad_odds (map (replace_char CHR '','' CHR ''.'') odd_list) in
     (case getitem data ''teams'' of
        Inl e \<Rightarrow> Inl e
      | Inr teams \<Rightarrow>
     (case (if \<not> truthy teams then synth_teams data now_hms else Inr teams) of
        Inl e \<Rightarrow> Inl e
      | Inr teams_info \<Rightarrow>
     (case getitem data ''ht_score'' of
        Inl e \<Rightarrow> Inl e
      | Inr ht \<Rightarrow>
     (case getitem data ''ft_score'' of
        Inl e \<Rightarrow> Inl e
      | Inr ft \<Rightarrow>
     (case py_len raw_odds of
        Inl e \<Rightarrow> Inl e
      | Inr n \<Rightarrow>
          Inr ([teams_info, py_or ht (PStr ''0-0''), py_or ft (PStr ''0-0'')]
               @ map (\<lambda>i. PStr (odds ! i)) [0..<15]
               @ [PStr now_full, PStr (''Active - '' @ str_of_nat n @ '' odds found'')])))))))))"

text \<open>The fifteen odds cells of a row: positions 3 to 17.\<close>

definition odds_slots :: "pyval list \<Rightarrow> pyval list" where
  "odds_slots row = take 15 (drop 3 row)"

subsection \<open>The sheet managers\<close>

text \<open>
  Of \<^verbatim>\<open>GoogleSheetsManager\<close> the model keeps the name and the worksheet: \<open>None\<close> before
  \<^verbatim>\<open>connect\<close>, afterwards the rows of the sheet. The type of a cell is a parameter:
  rows are written as Python values and read back as strings.

  \<^verbatim>\<open>worksheet.append_row\<close> belongs to the client library; it is a parameter that maps
  the rows and the new row to the rows afterwards, or to \<open>None\<close> when the call raises.
\<close>

record 'c GoogleSheetsManager =
  sheet_name :: string
  worksheet :: "'c list list option"

type_synonym 'c append_api = "'c list list \<Rightarrow> 'c list \<Rightarrow> 'c list list option"

definition ideal_append_row :: "'c append_api" where
  "ideal_append_row ws values = Some (ws @ [values])"

definition write_row ::
  "pyval append_api \<Rightarrow> string \<Rightarrow> pyval list \<Rightarrow> pyval GoogleSheetsManager
     \<Rightarrow> error + bool \<times> pyval GoogleSheetsManager" where
  "write_row append_row now values self =
     (case worksheet self of
        None \<Rightarrow> Inl (RuntimeError ''Google Sheets not connected. Call connect() first.'')
      | Some ws \<Rightarrow>
          (let values = (if length values < 10 then values @ [PStr now] else values) in
           case append_row ws values of
             None \<Rightarrow> Inr (False, self)
           | Some ws' \<Rightarrow> Inr (True, self\<lparr>worksheet := Some ws'\<rparr>)))"

record FlexibleSheetsManager =
  sheets :: "pyval GoogleSheetsManager"
  headers_written :: bool

text \<open>
  \<open>headers\<close> is the list of the seventeen column titles; some of them contain characters
  outside ASCII, so the list is a parameter.
\<close>

definition ensure_headers ::
  "pyval append_api \<Rightarrow> pyval list \<Rightarrow> string \<Rightarrow> FlexibleSheetsManager \<Rightarrow> FlexibleSheetsManager" where
  "ensure_headers append_row headers now self =
     (if \<not> headers_written self then
        (case write_row append_row now [PStr ''=== FLEXIBLE TURKISH PARSER ===''] (sheets self) of
           Inl e \<Rightarrow> self
         | Inr (_, g1) \<Rightarrow>
             (case write_row append_row now headers g1 of
                Inl e \<Rightarrow> self\<lparr>sheets := g1\<rparr>
              | Inr (_, g2) \<Rightarrow> self\<lparr>sheets := g2, headers_written := True\<rparr>))
      else self)"

text \<open>
  \<^verbatim>\<open>write_data\<close> drops the result of \<^verbatim>\<open>write_row\<close>: it returns \<^verbatim>\<open>True\<close> unless
  \<^verbatim>\<open>write_row\<close> raises.
\<close>

definition write_data ::
  "pyval append_api \<Rightarrow> pyval list \<Rightarrow> string \<Rightarrow> pyval list \<Rightarrow> FlexibleSheetsManager
     \<Rightarrow> bool \<times> FlexibleSheetsManager" where
  "write_data append_row headers now data_row self0 =
     (let self = ensure_headers append_row headers now self0 in
      case write_row append_row now data_row (sheets self) of
        Inl e \<Rightarrow> (False, self)
      | Inr (_, g) \<Rightarrow> (True, self\<lparr>sheets := g\<rparr>))"

subsection \<open>\<^verbatim>\<open>GoogleSheetsManager.remove_duplicates\<close>\<close>

type_synonym row = "string list"

definition match_key :: "row \<Rightarrow> string" where
  "match_key row = row ! 0 @ ''_'' @ row ! 1 @ ''_'' @ row ! 2"

text \<open>
  The loop over \<^verbatim>\<open>all_values[1:]\<close>. A row of at most two cells takes neither branch of
  the inner test: it is not appended to \<^verbatim>\<open>rows_to_keep\<close> and not counted.
\<close>

fun dedup_loop :: "row list \<Rightarrow> string set \<Rightarrow> row list \<Rightarrow> nat \<Rightarrow> string set \<times> row list \<times> nat" where
  "dedup_loop [] seen_matches rows_to_keep duplicates_removed =
     (seen_matches, rows_to_keep, duplicates_removed)"
| "dedup_loop (row # rest) seen_matches rows_to_keep duplicates_removed =
     (if length row > 2 then
        (if match_key row \<notin> seen_matches
         then dedup_loop rest (insert (match_key row) seen_matches) (rows_to_keep @ [row])
                duplicates_removed
         else dedup_loop rest seen_matches rows_to_keep (duplicates_removed + 1))
      else dedup_loop rest seen_matches rows_to_keep duplicates_removed)"

text \<open>
  The manager after the call, with the final value of \<^verbatim>\<open>duplicates_removed\<close> (the
  number the source logs; 0 on the early return). \<^verbatim>\<open>get_all_values\<close>,
  \<^verbatim>\<open>clear\<close> and \<^verbatim>\<open>append_rows\<close> are taken to succeed: after them the sheet holds
  \<^verbatim>\<open>rows_to_keep\<close>.
\<close>

definition remove_duplicates ::
  "string GoogleSheetsManager \<Rightarrow> error + string GoogleSheetsManager \<times> nat" where
  "remove_duplicates self =
     (case worksheet self of
        None \<Rightarrow> Inl (RuntimeError ''Google Sheets not connected'')
      | Some all_values \<Rightarrow>
          (if length all_values \<le> 1 then Inr (self, 0)
           else (case dedup_loop (tl all_values) {} [hd all_values] 0 of
                   (seen_matches, rows_to_keep, duplicates_removed) \<Rightarrow>
                     (if duplicates_removed > 0
                      then Inr (self\<lparr>worksheet := Some rows_to_keep\<rparr>, duplicates_removed)
                      else Inr (self, duplicates_removed)))))"

text \<open>The rows below the header that are long enough to have a key.\<close>

definition data_rows :: "row list \<Rightarrow> row list" where
  "data_rows all_values = filter (\<lambda>r. length r > 2) (tl all_values)"


subsection \<open>One processing pass of \<^verbatim>\<open>main\<close>\<close>

text \<open>
  The values of the clock at the four places one pass reads it: lines 216, 247 and 359 of
  the parser, and \<^verbatim>\<open>write_row\<close> of the sheet manager.
\<close>

record clock =
  t_placeholder :: string
  t_row :: string
  t_id :: string
  t_sink :: string

record run_state =
  processed_matches :: "string set"
  sheets_manager :: FlexibleSheetsManager

text \<open>
  The body of the \<^verbatim>\<open>try\<close> of lines 343 to 384 for the texts \<^verbatim>\<open>results[0]\<close> of one
  OCR run. An exception raised inside is caught by \<^verbatim>\<open>except Exception\<close>, which prints
  and leaves the state as it is. The last case of the pattern match covers dictionaries
  that \<open>extract_all_data\<close> does not build.
\<close>

definition process_capture ::
  "pyval append_api \<Rightarrow> pyval list \<Rightarrow> clock \<Rightarrow> string list \<Rightarrow> run_state \<Rightarrow> run_state" where
  "process_capture append_row headers clk texts st =
     (if texts = [] then st
      else
        (let ocr_lines = filter (\<lambda>t. strip t \<noteq> []) texts;
             extracted_data = extract_all_data ocr_lines
         in case (extracted_data ''teams'', extracted_data ''odds'', extracted_data ''ft_score'') of
              (Some teams, Some (PList odds), Some (PStr ft_score)) \<Rightarrow>
                if truthy teams \<or> length odds \<ge> 3 then
                  (case create_flexible_row extracted_data (t_placeholder clk) (t_row clk) of
                     Inl e \<Rightarrow> st
                   | Inr data_row \<Rightarrow>
                       (let odds_summary = concat (take 5 odds);
                            timestamp = t_id clk;
                            data_id = (case teams of PStr t \<Rightarrow> t | _ \<Rightarrow> ''None'') @ ''_'' @ ft_score
                                        @ ''_'' @ odds_summary @ ''_'' @ timestamp
                        in if length odds \<ge> 3 then
                             (case write_data append_row headers (t_sink clk) data_row
                                     (sheets_manager st) of
                                (success, m) \<Rightarrow>
                                  if success
                                  then st\<lparr>sheets_manager := m,
                                          processed_matches := insert data_id (processed_matches st)\<rparr>
                                  else st\<lparr>sheets_manager := m\<rparr>)
                           else st))
                else st
            | _ \<Rightarrow> st))"

text \<open>The rows the sheet of a run state holds; empty before \<^verbatim>\<open>connect\<close>.\<close>

definition sink_rows :: "run_state \<Rightarrow> pyval list list" where
  "sink_rows st = (case worksheet (sheets (sheets_manager st)) of None \<Rightarrow> [] | Some ws \<Rightarrow> ws)"

section \<open>Auxiliary definitions\<close>

subsection \<open>What the cleanup loop appends and counts\<close>

text \<open>
  \<open>first_seen\<close> and \<open>dup_count\<close> describe what the loop appends and counts, as
  functions of the rows and of the keys seen so far.
\<close>

fun first_seen :: "string set \<Rightarrow> row list \<Rightarrow> row list" where
  "first_seen seen [] = []"
| "first_seen seen (r # rs) =
     (if length r > 2 then
        (if match_key r \<in> seen then first_seen seen rs
         else r # first_seen (insert (match_key r) seen) rs)
      else first_seen seen rs)"

fun dup_count :: "string set \<Rightarrow> row list \<Rightarrow> nat" where
  "dup_count seen [] = 0"
| "dup_count seen (r # rs) =
     (if length r > 2 then
        (if match_key r \<in> seen then Suc (dup_count seen rs)
         else dup_count (insert (match_key r) seen) rs)
      else dup_count seen rs)"

subsection \<open>The cleaned lines of a capture, and lines that look like a score\<close>

text \<open>
  The lines the loop of \<open>extract_all_data\<close> does not skip, and the test of line 126 over
  the five patterns.
\<close>

definition cleaned_lines :: "string list \<Rightarrow> string list" where
  "cleaned_lines ocr_lines = filter (\<lambda>line. \<not> length line < 1) (map clean_text ocr_lines)"

definition score_like :: "string \<Rightarrow> bool" where
  "score_like line = list_ex (\<lambda>pattern. re_search_ci pattern line) potential_scores"

subsection \<open>Example inputs\<close>

definition sheet_with_duplicate :: "string GoogleSheetsManager" where
  "sheet_with_duplicate =
     \<lparr>sheet_name = ''Mackolik Matches'',
      worksheet = Some [[''League'', ''Date'', ''Teams'', ''Odds_1''],
                        [''Super Lig'', ''2024-01-01'', ''A - B'', ''1.85''],
                        [''Super Lig'', ''2024-01-02'', ''C - D'', ''2.10''],
                        [''Super Lig'', ''2024-01-01'', ''A - B'', ''1.90'']]\<rparr>"

definition sheet_deduplicated :: "string GoogleSheetsManager" where
  "sheet_deduplicated =
     \<lparr>sheet_name = ''Mackolik Matches'',
      worksheet = Some [[''League'', ''Date'', ''Teams'', ''Odds_1''],
                        [''Super Lig'', ''2024-01-01'', ''A - B'', ''1.85''],
                        [''Super Lig'', ''2024-01-02'', ''C - D'', ''2.10'']]\<rparr>"



definition capture_mixed :: "string list" where
  "capture_mixed = [''  NESINE '', ''abc'', ''   '', ''Everton'', ''Real   Madrid'', ''1,85'']"

definition capture_odds_mixed :: "string list" where
  "capture_odds_mixed = [''Fenerbahce'', ''1,85'', '' 0,50 '', ''12.345'', ''99.99'']"

definition capture_two_odds :: "string list" where
  "capture_two_odds = [''Fenerbahce'', ''Galatasaray'', ''1,85'', ''3,20'']"

definition row_two_odds :: "pyval list" where
  "row_two_odds =
     [PStr ''Fenerbahce - Galatasaray'', PStr ''0-0'', PStr ''0-0'',
      PStr ''1.85'', PStr ''3.20'', PStr ''0'', PStr ''0'', PStr ''0'',
      PStr ''0'', PStr ''0'', PStr ''0'', PStr ''0'', PStr ''0'',
      PStr ''0'', PStr ''0'', PStr ''0'', PStr ''0'', PStr ''0'',
      PStr ''2024-01-01 12:00:01'', PStr ''Active - 2 odds found'']"

definition capture_no_score :: "string list" where
  "capture_no_score = [''Besiktas'', ''Trabzonspor'', ''2,40'', ''3,10'', ''2,95'']"

definition capture_three_odds :: "string list" where
  "capture_three_odds = [''1,85'', ''3,20'', ''4,10'']"

definition capture_match :: "string list" where
  "capture_match = [''Fenerbahce'', ''Galatasaray'', ''1,85'', ''3,20'', ''4,10'']"

definition clock_noon :: clock where
  "clock_noon = \<lparr>t_placeholder = ''12:00:01'', t_row = ''2024-01-01 12:00:01'',
                  t_id = ''120001'', t_sink = ''2024-01-01 12:00:01''\<rparr>"

definition row_match :: "pyval list" where
  "row_match =
     [PStr ''Fenerbahce - Galatasaray'', PStr ''0-0'', PStr ''0-0'',
      PStr ''1.85'', PStr ''3.20'', PStr ''4.10'', PStr ''0'', PStr ''0'',
      PStr ''0'', PStr ''0'', PStr ''0'', PStr ''0'', PStr ''0'',
      PStr ''0'', PStr ''0'', PStr ''0'', PStr ''0'', PStr ''0'',
      PStr ''2024-01-01 12:00:01'', PStr ''Active - 3 odds found'']"

definition fingerprint_match :: string where
  "fingerprint_match = ''Fenerbahce - Galatasaray_0-0_1,853,204,10_120001''"

definition connected :: run_state where
  "connected =
     \<lparr>processed_matches = {},
      sheets_manager =
        \<lparr>sheets = \<lparr>sheet_name = ''Mackolik Matches'', worksheet = Some []\<rparr>,
         headers_written = False\<rparr>\<rparr>"

definition first_pass :: "pyval list \<Rightarrow> run_state" where
  "first_pass headers = process_capture ideal_append_row headers clock_noon capture_match connected"

section \<open>Properties\<close>

subsection \<open>The scan of a capture\<close>

lemma scan_lines_eq:
  "scan_lines ocr_lines acc =
     \<lparr>sc_all_text = sc_all_text acc @ cleaned_lines ocr_lines,
      sc_odds = sc_odds acc @ filter re_match_odds (cleaned_lines ocr_lines),
      sc_team_candidates = sc_team_candidates acc @ filter team_candidate_test (cleaned_lines ocr_lines)\<rparr>"
  by (induction ocr_lines arbitrary: acc) (simp_all add: cleaned_lines_def Let_def)

lemma scan_capture_eq:
  "scan_capture ocr_lines =
     \<lparr>sc_all_text = cleaned_lines ocr_lines,
      sc_odds = filter re_match_odds (cleaned_lines ocr_lines),
      sc_team_candidates = filter team_candidate_test (cleaned_lines ocr_lines)\<rparr>"
  by (simp add: scan_capture_def scan_lines_eq)

lemma extract_teams:
  "extract_all_data ocr_lines ''teams'' = Some (resolve_teams (sc_team_candidates (scan_capture ocr_lines)))"
  by (simp add: extract_all_data_def Let_def)

lemma extract_odds:
  "extract_all_data ocr_lines ''odds'' = Some (PList (sc_odds (scan_capture ocr_lines)))"
  by (simp add: extract_all_data_def Let_def)

text \<open>
  C2 (as amended). For a capture of ASCII lines, the team candidates are, element for
  element in encounter order, the non-empty cleaned lines that pass the inline test of the
  assembler, \<open>team_candidate_test\<close>; \<^verbatim>\<open>all_text\<close> holds exactly those cleaned lines,
  and the teams field is resolved from that list. \<open>is_team_match\<close> takes no part in it.
\<close>

theorem C2_candidates_are_inline_filter:
  assumes "list_all ascii_text ocr_lines"
  shows "sc_team_candidates (scan_capture ocr_lines)
       = filter team_candidate_test (cleaned_lines ocr_lines)
     \<and> sc_all_text (scan_capture ocr_lines) = cleaned_lines ocr_lines
     \<and> extract_all_data ocr_lines ''teams''
         = Some (resolve_teams (filter team_candidate_test (cleaned_lines ocr_lines)))"
  by (simp add: scan_capture_eq extract_teams)

text \<open>
  An instance: the brand line is rejected, so is the line that contains \<^verbatim>\<open>EV\<close>, the
  blank line is skipped and the pure number is no candidate.
\<close>

lemma capture_mixed_ascii: "list_all ascii_text capture_mixed"
  by code_simp

theorem C2_witness:
  "list_all ascii_text capture_mixed
   \<and> sc_team_candidates (scan_capture capture_mixed) = [''abc'', ''Real Madrid'']"
proof -
  from C2_candidates_are_inline_filter[OF capture_mixed_ascii]
  have "sc_team_candidates (scan_capture capture_mixed)
      = filter team_candidate_test (cleaned_lines capture_mixed)"
    by (rule conjunct1)
  also have "\<dots> = [''abc'', ''Real Madrid'']" by code_simp
  finally show ?thesis by (simp add: capture_mixed_ascii)
qed

text \<open>
  The inline test and \<open>is_team_match\<close> differ in both directions: the three-letter word
  is a candidate of the assembler and no team for \<open>is_team_match\<close>; the word containing
  \<^verbatim>\<open>EV\<close> is a team for \<open>is_team_match\<close> and no candidate of the assembler.
\<close>

theorem C2_counterexample:
  "sc_team_candidates (scan_capture [''abc'', ''Everton''])
     \<noteq> filter is_team_match (sc_all_text (scan_capture [''abc'', ''Everton'']))
   \<and> sc_team_candidates (scan_capture [''abc'', ''Everton'']) = [''abc'']
   \<and> filter is_team_match (sc_all_text (scan_capture [''abc'', ''Everton''])) = [''Everton'']"
  by code_simp

subsection \<open>Cleaned lines\<close>

lemma collapse_from_chars:
  "c \<in> set (collapse_from in_run s) \<Longrightarrow> \<not> isspace c \<or> c = CHR '' ''"
  by (induction s arbitrary: in_run) (auto split: if_splits)

lemma clean_text_chars: "c \<in> set (clean_text s) \<Longrightarrow> \<not> isspace c \<or> c = CHR '' ''"
  unfolding clean_text_def collapse_ws_def by (rule collapse_from_chars)

lemma clean_text_no_newline: "clean_text s \<noteq> [] \<Longrightarrow> last (clean_text s) \<noteq> CHR 0x0A"
proof
  assume ne: "clean_text s \<noteq> []" and nl: "last (clean_text s) = CHR 0x0A"
  from ne have "last (clean_text s) \<in> set (clean_text s)" by (rule last_in_set)
  then have "\<not> isspace (last (clean_text s)) \<or> last (clean_text s) = CHR '' ''"
    by (rule clean_text_chars)
  with nl show False by (simp add: isspace_def)
qed

lemma cleaned_lines_match_odds:
  "l \<in> set (cleaned_lines ocr_lines) \<Longrightarrow> re_match_odds l = odds_form l"
  using clean_text_no_newline by (auto simp: cleaned_lines_def re_match_odds_def)

lemma filter_match_odds_cleaned:
  "filter re_match_odds (cleaned_lines ocr_lines) = filter odds_form (cleaned_lines ocr_lines)"
  by (rule filter_cong[OF refl]) (rule cleaned_lines_match_odds)

subsection \<open>Lines of the odds shape\<close>

lemma isdigit_facts: "isdigit c \<Longrightarrow> digit_val c \<le> 9 \<and> \<not> isspace c"
  by (auto simp: isdigit_def digit_val_def isspace_def)

lemma sep_not_digit: "p \<in> set '',.'' \<Longrightarrow> \<not> isdigit p"
  by (auto simp: isdigit_def)

lemma odds_form_cases:
  assumes "odds_form s"
  obtains a p b c where "s = [a, p, b, c]" "isdigit a" "p \<in> set '',.''" "isdigit b" "isdigit c"
  | a1 a2 p b c where "s = [a1, a2, p, b, c]" "isdigit a1" "isdigit a2" "p \<in> set '',.''"
      "isdigit b" "isdigit c"
proof -
  from assms have "length s = 4 \<or> length s = 5" by (simp add: odds_form_def)
  then show thesis
  proof
    assume "length s = 4"
    then obtain a p b c where s: "s = [a, p, b, c]"
      by (auto simp: length_Suc_conv eval_nat_numeral)
    with assms have "isdigit a" "p \<in> set '',.''" "isdigit b" "isdigit c"
      by (simp_all add: odds_form_def)
    with s show thesis by (rule that(1))
  next
    assume "length s = 5"
    then obtain a1 a2 p b c where s: "s = [a1, a2, p, b, c]"
      by (auto simp: length_Suc_conv eval_nat_numeral)
    with assms have "isdigit a1" "isdigit a2" "p \<in> set '',.''" "isdigit b" "isdigit c"
      by (simp_all add: odds_form_def eval_nat_numeral)
    with s show thesis by (rule that(2))
  qed
qed

lemma odds_form_strip: "odds_form s \<Longrightarrow> strip s = s"
  by (erule odds_form_cases) (simp_all add: strip_def isdigit_facts)

lemma odds_form_cents: "odds_form s \<Longrightarrow> odds_cents s \<le> 9999"
proof (erule odds_form_cases)
  fix a p b c
  assume "s = [a, p, b, c]" "isdigit a" "p \<in> set '',.''" "isdigit b" "isdigit c"
  moreover from this have "digit_val a \<le> 9" "digit_val b \<le> 9" "digit_val c \<le> 9" "\<not> isdigit p"
    using isdigit_facts sep_not_digit by blast+
  ultimately show ?thesis by (simp add: odds_cents_def)
next
  fix a1 a2 p b c
  assume "s = [a1, a2, p, b, c]" "isdigit a1" "isdigit a2" "p \<in> set '',.''" "isdigit b" "isdigit c"
  moreover from this have "digit_val a1 \<le> 9" "digit_val a2 \<le> 9" "digit_val b \<le> 9"
    "digit_val c \<le> 9" "\<not> isdigit p"
    using isdigit_facts sep_not_digit by blast+
  ultimately show ?thesis by (simp add: odds_cents_def)
qed

lemma comma_period_not_digit: "\<not> isdigit CHR '',''" "\<not> isdigit CHR ''.''"
  by (simp_all add: isdigit_def)

lemma filter_isdigit_replace:
  "filter isdigit (replace_char CHR '','' CHR ''.'' s) = filter isdigit s"
  by (induction s) (simp_all add: replace_char_def comma_period_not_digit)

lemma odds_cents_replace: "odds_cents (replace_char CHR '','' CHR ''.'' s) = odds_cents s"
  by (simp add: odds_cents_def filter_isdigit_replace)

lemma odds_form_is_odds_value: "odds_form s \<Longrightarrow> is_odds_value s = (101 \<le> odds_cents s)"
  using odds_form_cents[of s]
  by (simp add: is_odds_value_def odds_form_strip re_match_odds_def)

text \<open>
  C5 (as amended). For a capture of ASCII lines, the odds list holds, in encounter order,
  the non-empty cleaned lines of the shape \<^verbatim>\<open>\d{1,2}[,\.]\d{2}\<close>: the assembler tests
  the shape only and does not call \<open>is_odds_value\<close>. Replacing the comma by a period does
  not change the number a collected value denotes; that number lies between 0.00 and 99.99;
  and the value satisfies \<open>is_odds_value\<close> exactly when the number is at least 1.01.
\<close>

theorem C5_collected_odds_have_shape:
  assumes "list_all ascii_text ocr_lines"
  shows "sc_odds (scan_capture ocr_lines) = filter odds_form (cleaned_lines ocr_lines)
     \<and> (\<forall>v \<in> set (sc_odds (scan_capture ocr_lines)).
           odds_form v
         \<and> odds_cents (replace_char CHR '','' CHR ''.'' v) = odds_cents v
         \<and> odds_cents v \<le> 9999
         \<and> is_odds_value v = (101 \<le> odds_cents v))"
  by (simp add: scan_capture_eq filter_match_odds_cleaned odds_form_cents odds_cents_replace
      odds_form_is_odds_value)

lemma capture_odds_mixed_ascii: "list_all ascii_text capture_odds_mixed"
  by code_simp

theorem C5_witness:
  "list_all ascii_text capture_odds_mixed
   \<and> sc_odds (scan_capture capture_odds_mixed) = [''1,85'', ''0,50'', ''99.99'']
   \<and> is_odds_value ''1,85'' \<and> \<not> is_odds_value ''0,50'' \<and> odds_cents ''0,50'' = 50"
proof -
  have a: "sc_odds (scan_capture capture_odds_mixed) = [''1,85'', ''0,50'', ''99.99'']"
    by code_simp
  have c: "odds_cents ''1,85'' = 185" "odds_cents ''0,50'' = 50" by code_simp+
  from C5_collected_odds_have_shape[OF capture_odds_mixed_ascii] a
  have "is_odds_value ''1,85'' = (101 \<le> odds_cents ''1,85'')"
    "is_odds_value ''0,50'' = (101 \<le> odds_cents ''0,50'')"
    by simp_all
  with a c show ?thesis by (simp add: capture_odds_mixed_ascii)
qed

text \<open>The line \<^verbatim>\<open>0,50\<close> is collected as odds and fails the range test of \<open>is_odds_value\<close>.\<close>

theorem C5_counterexample:
  "''0,50'' \<in> set (sc_odds (scan_capture [''0,50''])) \<and> \<not> is_odds_value ''0,50''"
  by code_simp

subsection \<open>The row\<close>

lemma pad_odds_eq: "pad_odds odds = odds @ replicate (15 - length odds) ''0''"
proof (induction odds rule: pad_odds.induct)
  case (1 odds)
  show ?case
  proof (cases "length odds < 15")
    case True
    then have "15 - length odds = Suc (15 - length (odds @ [''0'']))" by simp
    with True "1" show ?thesis by (subst pad_odds.simps) (simp add: replicate_app_Cons_same)
  next
    case False
    then show ?thesis by (subst pad_odds.simps) simp
  qed
qed

lemma length_pad_odds: "15 \<le> length (pad_odds odds)"
  by (simp add: pad_odds_eq)

lemma map_nth_upt_take: "n \<le> length xs \<Longrightarrow> map (\<lambda>i. f (xs ! i)) [0..<n] = map f (take n xs)"
  by (simp add: list_eq_iff_nth_eq)

lemma create_flexible_row_Inr:
  assumes "create_flexible_row data now_hms now_full = Inr row"
  obtains raw_odds odd_list teams teams_info ht ft n where
    "data ''odds'' = Some raw_odds" "py_iter raw_odds = Inr odd_list"
    "data ''teams'' = Some teams"
    "(if \<not> truthy teams then synth_teams data now_hms else Inr teams) = Inr teams_info"
    "data ''ht_score'' = Some ht" "data ''ft_score'' = Some ft" "py_len raw_odds = Inr n"
    "row = [teams_info, py_or ht (PStr ''0-0''), py_or ft (PStr ''0-0'')]
           @ map PStr (take 15 (pad_odds (map (replace_char CHR '','' CHR ''.'') odd_list)))
           @ [PStr now_full, PStr (''Active - '' @ str_of_nat n @ '' odds found'')]"
  using assms
  by (auto simp: create_flexible_row_def getitem_def Let_def map_nth_upt_take[OF length_pad_odds]
      split: option.splits sum.splits)

lemma take_15_pad_odds:
  "take 15 (pad_odds odds) = take 15 odds @ replicate (15 - length odds) ''0''"
  by (simp add: pad_odds_eq)

lemma row_two_odds_created:
  "create_flexible_row (extract_all_data capture_two_odds) ''12:00:01'' ''2024-01-01 12:00:01''
     = Inr row_two_odds"
  by code_simp

lemma two_odds_detected:
  "extract_all_data capture_two_odds ''odds'' = Some (PList [''1,85'', ''3,20''])"
  by code_simp

text \<open>
  C6. In every row that \<open>create_flexible_row\<close> returns for a dictionary whose odds are
  the list \<open>detected\<close>, the odds cells are exactly fifteen. With fewer than fifteen detected
  values they are the detected values in order, each with its comma replaced by a period,
  followed by the sentinel \<^verbatim>\<open>0\<close> up to fifteen; with fifteen or more they are the first
  fifteen detected values in order.
\<close>

theorem C6_odds_slots:
  assumes "create_flexible_row data now_hms now_full = Inr row"
    and "data ''odds'' = Some (PList detected)"
  shows "length (odds_slots row) = 15
     \<and> (length detected < 15 \<longrightarrow>
          odds_slots row = map PStr (map (replace_char CHR '','' CHR ''.'') detected
                                     @ replicate (15 - length detected) ''0''))
     \<and> (15 \<le> length detected \<longrightarrow>
          odds_slots row = map PStr (take 15 (map (replace_char CHR '','' CHR ''.'') detected)))"
proof -
  from assms(1) obtain raw_odds odd_list teams_info ht ft n where
    raw: "data ''odds'' = Some raw_odds" "py_iter raw_odds = Inr odd_list"
    and row: "row = [teams_info, py_or ht (PStr ''0-0''), py_or ft (PStr ''0-0'')]
           @ map PStr (take 15 (pad_odds (map (replace_char CHR '','' CHR ''.'') odd_list)))
           @ [PStr now_full, PStr (''Active - '' @ str_of_nat n @ '' odds found'')]"
    by (rule create_flexible_row_Inr)
  from raw assms(2) have "odd_list = detected" by auto
  with row have "odds_slots row
      = map PStr (take 15 (pad_odds (map (replace_char CHR '','' CHR ''.'') detected)))"
    by (simp add: odds_slots_def length_pad_odds)
  then show ?thesis by (simp add: take_15_pad_odds)
qed

theorem C6_witness:
  "create_flexible_row (extract_all_data capture_two_odds) ''12:00:01'' ''2024-01-01 12:00:01''
     = Inr row_two_odds
   \<and> odds_slots row_two_odds = map PStr ([''1.85'', ''3.20''] @ replicate 13 ''0'')"
proof -
  from C6_odds_slots[OF row_two_odds_created two_odds_detected]
  have "odds_slots row_two_odds
      = map PStr (map (replace_char CHR '','' CHR ''.'') [''1,85'', ''3,20'']
                  @ replicate (15 - length [''1,85'', ''3,20'']) ''0'')"
    by simp
  then show ?thesis by (simp add: row_two_odds_created replace_char_def)
qed

text \<open>
  The layout of every row \<open>create_flexible_row\<close> returns: 20 positions, in the order
  teams field (the value of \<^verbatim>\<open>data['teams']\<close> when it is truthy, otherwise what the
  placeholder branch yields), half-time score and full-time score (each defaulting to
  \<^verbatim>\<open>0-0\<close>), fifteen odds cells, capture timestamp, status note with the number of odds
  found.
\<close>

lemma created_row_layout:
  assumes "create_flexible_row data now_hms now_full = Inr row"
  shows "length row = 20
     \<and> (\<exists>teams. data ''teams'' = Some teams
          \<and> (if truthy teams then row ! 0 = teams else synth_teams data now_hms = Inr (row ! 0)))
     \<and> (\<exists>ht. data ''ht_score'' = Some ht \<and> row ! 1 = py_or ht (PStr ''0-0''))
     \<and> (\<exists>ft. data ''ft_score'' = Some ft \<and> row ! 2 = py_or ft (PStr ''0-0''))
     \<and> (\<exists>odds. length odds = 15 \<and> take 15 (drop 3 row) = map PStr odds)
     \<and> row ! 18 = PStr now_full
     \<and> (\<exists>raw_odds n. data ''odds'' = Some raw_odds \<and> py_len raw_odds = Inr n
          \<and> row ! 19 = PStr (''Active - '' @ str_of_nat n @ '' odds found''))"
proof -
  from assms obtain raw_odds odd_list teams teams_info ht ft n where
    d: "data ''odds'' = Some raw_odds" "data ''teams'' = Some teams"
       "(if \<not> truthy teams then synth_teams data now_hms else Inr teams) = Inr teams_info"
       "data ''ht_score'' = Some ht" "data ''ft_score'' = Some ft" "py_len raw_odds = Inr n"
    and row: "row = [teams_info, py_or ht (PStr ''0-0''), py_or ft (PStr ''0-0'')]
           @ map PStr (take 15 (pad_odds (map (replace_char CHR '','' CHR ''.'') odd_list)))
           @ [PStr now_full, PStr (''Active - '' @ str_of_nat n @ '' odds found'')]"
    by (rule create_flexible_row_Inr)
  let ?odds = "take 15 (pad_odds (map (replace_char CHR '','' CHR ''.'') odd_list))"
  have len: "length ?odds = 15" by (simp add: length_pad_odds)
  have "length row = 20" by (simp add: row length_pad_odds)
  moreover have "if truthy teams then row ! 0 = teams else synth_teams data now_hms = Inr (row ! 0)"
    using d(3) by (auto simp: row split: if_splits)
  moreover have "row ! 1 = py_or ht (PStr ''0-0'')" "row ! 2 = py_or ft (PStr ''0-0'')"
    by (simp_all add: row)
  moreover have "take 15 (drop 3 row) = map PStr ?odds"
    by (simp add: row length_pad_odds)
  moreover have "row ! 18 = PStr now_full"
    using len by (simp add: row nth_append)
  moreover have "row ! 19 = PStr (''Active - '' @ str_of_nat n @ '' odds found'')"
    using len by (simp add: row nth_append)
  ultimately show ?thesis using d len by blast
qed

subsection \<open>What a pass appends\<close>

text \<open>
  With a sheet that accepts every row, a pass leaves the sheet as it is or appends one row
  that \<open>create_flexible_row\<close> returned, of 20 positions, after the two header rows when
  these are not yet written. The set \<^verbatim>\<open>processed_matches\<close> has no influence on it.
\<close>

lemma created_row_length: "create_flexible_row data now_hms now_full = Inr row \<Longrightarrow> length row = 20"
  by (erule create_flexible_row_Inr) (simp add: length_pad_odds)

lemma write_row_ideal_long:
  "worksheet g = Some ws \<Longrightarrow> \<not> length values < 10 \<Longrightarrow>
   write_row ideal_append_row now values g = Inr (True, g\<lparr>worksheet := Some (ws @ [values])\<rparr>)"
  by (simp add: write_row_def ideal_append_row_def)

lemma ensure_headers_ideal:
  "worksheet (sheets m) = Some ws \<Longrightarrow>
   \<exists>hdr. worksheet (sheets (ensure_headers ideal_append_row headers now m)) = Some (ws @ hdr)
        \<and> (headers_written m \<longrightarrow> hdr = [])"
  by (cases "headers_written m")
    (simp_all add: ensure_headers_def write_row_def ideal_append_row_def Let_def)

lemma write_data_ideal:
  assumes "worksheet (sheets m) = Some ws" and "length data_row = 20"
  shows "\<exists>hdr m'. write_data ideal_append_row headers now data_row m = (True, m')
        \<and> worksheet (sheets m') = Some (ws @ hdr @ [data_row])
        \<and> (headers_written m \<longrightarrow> hdr = [])"
proof -
  from ensure_headers_ideal[OF assms(1), of headers now] obtain hdr where
    h: "worksheet (sheets (ensure_headers ideal_append_row headers now m)) = Some (ws @ hdr)"
       "headers_written m \<longrightarrow> hdr = []" by blast
  from assms(2) have "\<not> length data_row < 10" by simp
  from write_row_ideal_long[OF h(1) this, of now] h(2) show ?thesis
    by (simp add: write_data_def Let_def)
qed

lemma pass_forwards_created_row:
  assumes "worksheet (sheets (sheets_manager st)) = Some ws"
  shows "sink_rows (process_capture ideal_append_row headers clk texts st) = ws
       \<or> (\<exists>hdr row. sink_rows (process_capture ideal_append_row headers clk texts st) = ws @ hdr @ [row]
            \<and> create_flexible_row (extract_all_data (filter (\<lambda>t. strip t \<noteq> []) texts))
                 (t_placeholder clk) (t_row clk) = Inr row
            \<and> length row = 20
            \<and> (headers_written (sheets_manager st) \<longrightarrow> hdr = []))"
proof -
  let ?d = "extract_all_data (filter (\<lambda>t. strip t \<noteq> []) texts)"
  show ?thesis
  proof (cases "create_flexible_row ?d (t_placeholder clk) (t_row clk)")
    case (Inl e)
    with assms show ?thesis
      by (auto simp: process_capture_def Let_def sink_rows_def split: option.splits pyval.splits)
  next
    case (Inr row)
    then have len: "length row = 20" by (rule created_row_length)
    from write_data_ideal[OF assms len, of headers "t_sink clk"] obtain hdr m' where
      w: "write_data ideal_append_row headers (t_sink clk) row (sheets_manager st) = (True, m')"
         "worksheet (sheets m') = Some (ws @ hdr @ [row])"
         "headers_written (sheets_manager st) \<longrightarrow> hdr = []" by blast
    with Inr len assms show ?thesis
      by (auto simp: process_capture_def Let_def sink_rows_def split: option.splits pyval.splits)
  qed
qed

subsection \<open>Cleaning twice\<close>

lemma isspace_space: "isspace CHR '' ''"
  by (simp add: isspace_def)

lemma collapse_from_idem:
  "collapse_from False (collapse_from in_run s) = collapse_from in_run s
   \<and> collapse_from True (collapse_from True s) = collapse_from True s"
  by (induction s arbitrary: in_run) (simp_all add: isspace_space)

lemma strip_id:
  assumes "s = [] \<or> (\<not> isspace (hd s) \<and> \<not> isspace (last s))"
  shows "strip s = s"
proof -
  from assms have "dropWhile isspace s = s" by (auto simp add: dropWhile_eq_self_iff)
  moreover from assms have "dropWhile isspace (rev s) = rev s"
    by (auto simp add: dropWhile_eq_self_iff hd_rev)
  ultimately show ?thesis by (simp add: strip_def)
qed

lemma strip_ends:
  assumes "strip s \<noteq> []"
  shows "\<not> isspace (hd (strip s)) \<and> \<not> isspace (last (strip s))"
proof -
  let ?d = "dropWhile isspace s"
  let ?r = "dropWhile isspace (rev ?d)"
  from assms have r: "?r \<noteq> []" by (simp add: strip_def)
  then have "\<not> isspace (hd ?r)" by (rule hd_dropWhile)
  then have l: "\<not> isspace (last (strip s))" by (simp add: strip_def last_rev)
  from r obtain x where x: "x \<in> set (rev ?d)" "\<not> isspace x" by auto
  then have "last ?r = last (rev ?d)" by (rule dropWhile_last)
  then have h: "hd (strip s) = hd ?d" by (simp add: strip_def hd_rev last_rev)
  from x(1) have "?d \<noteq> []" by (metis empty_iff empty_set set_rev)
  then have "\<not> isspace (hd ?d)" by (rule hd_dropWhile)
  with h l show ?thesis by simp
qed

lemma collapse_from_last:
  "s \<noteq> [] \<Longrightarrow> \<not> isspace (last s) \<Longrightarrow>
   collapse_from in_run s \<noteq> [] \<and> last (collapse_from in_run s) = last s"
proof (induction s arbitrary: in_run)
  case Nil
  then show ?case by simp
next
  case (Cons a s)
  show ?case
  proof (cases "s = []")
    case True
    with Cons.prems show ?thesis by simp
  next
    case False
    with Cons.prems have "\<not> isspace (last s)" by simp
    with False Cons.IH
    have "\<And>r. collapse_from r s \<noteq> [] \<and> last (collapse_from r s) = last s" by blast
    with False show ?thesis by simp
  qed
qed

lemma collapse_from_hd:
  "s \<noteq> [] \<Longrightarrow> \<not> isspace (hd s) \<Longrightarrow> hd (collapse_from in_run s) = hd s"
  by (cases s) simp_all

lemma clean_text_idem: "clean_text (clean_text s) = clean_text s"
proof (cases "strip s = []")
  case True
  then show ?thesis by (simp add: clean_text_def collapse_ws_def strip_id)
next
  case False
  let ?c = "collapse_from False (strip s)"
  from strip_ends[OF False]
  have e: "\<not> isspace (hd (strip s))" "\<not> isspace (last (strip s))" by simp_all
  from collapse_from_last[OF False e(2)] collapse_from_hd[OF False e(1)] e
  have "\<not> isspace (hd ?c) \<and> \<not> isspace (last ?c)" by simp
  then have "strip ?c = ?c" by (intro strip_id) simp
  then show ?thesis by (simp add: clean_text_def collapse_ws_def collapse_from_idem)
qed

lemma cleaned_lines_clean: "l \<in> set (cleaned_lines ocr_lines) \<Longrightarrow> clean_text l = l"
  by (auto simp: cleaned_lines_def clean_text_idem)

subsection \<open>No pattern, no score\<close>

lemma try_patterns_none:
  "\<not> list_ex (\<lambda>pattern. re_search_ci pattern line) ps \<Longrightarrow> try_patterns ps line = None"
  by (induction ps) simp_all

lemma find_hidden_score_none:
  "\<forall>line\<in>set ocr_lines. \<not> score_like (clean_text line) \<Longrightarrow> find_hidden_score ocr_lines = None"
  by (induction ocr_lines) (simp_all add: score_like_def try_patterns_none)

lemma find_hidden_score_cleaned:
  assumes "\<forall>line\<in>set ocr_lines. \<not> score_like (clean_text line)"
  shows "find_hidden_score (cleaned_lines ocr_lines) = None"
proof (rule find_hidden_score_none, rule ballI)
  fix l
  assume l: "l \<in> set (cleaned_lines ocr_lines)"
  then obtain raw where "raw \<in> set ocr_lines" "l = clean_text raw"
    by (auto simp: cleaned_lines_def)
  with assms show "\<not> score_like (clean_text l)" by (simp add: clean_text_idem)
qed

lemma extract_ft_score_default:
  "\<forall>line\<in>set ocr_lines. \<not> score_like (clean_text line) \<Longrightarrow>
   extract_all_data ocr_lines ''ft_score'' = Some (PStr ''0-0'')"
  by (simp add: extract_all_data_def Let_def scan_capture_eq find_hidden_score_cleaned)

text \<open>
  C7. Hidden-score recovery maps the line \<^verbatim>\<open>I-O\<close> to \<^verbatim>\<open>1-0\<close> and the line
  \<^verbatim>\<open>2 - l\<close> to \<^verbatim>\<open>2-1\<close>. For a capture of ASCII lines none of whose cleaned lines
  matches one of the five score patterns, recovery returns none, the full-time score of the
  extracted data is the default \<^verbatim>\<open>0-0\<close>, and so is the full-time cell of every row
  built from it.
\<close>

theorem C7_hidden_score:
  "find_hidden_score [''I-O''] = Some ''1-0''
   \<and> find_hidden_score [''2 - l''] = Some ''2-1''
   \<and> (list_all ascii_text ocr_lines
        \<and> (\<forall>line\<in>set ocr_lines. \<not> score_like (clean_text line)) \<longrightarrow>
        find_hidden_score ocr_lines = None
        \<and> extract_all_data ocr_lines ''ft_score'' = Some (PStr ''0-0'')
        \<and> (\<forall>row. create_flexible_row (extract_all_data ocr_lines) now_hms now_full = Inr row
              \<longrightarrow> row ! 2 = PStr ''0-0''))"
proof -
  have a: "find_hidden_score [''I-O''] = Some ''1-0''" by code_simp
  have b: "find_hidden_score [''2 - l''] = Some ''2-1''" by code_simp
  have c: "row ! 2 = PStr ''0-0''"
    if "\<forall>line\<in>set ocr_lines. \<not> score_like (clean_text line)"
      and "create_flexible_row (extract_all_data ocr_lines) now_hms now_full = Inr row" for row
  proof -
    from that(2) obtain ft where "extract_all_data ocr_lines ''ft_score'' = Some ft"
      "row ! 2 = py_or ft (PStr ''0-0'')"
      by (rule create_flexible_row_Inr) simp
    with extract_ft_score_default[OF that(1)] show ?thesis by (simp add: py_or_def)
  qed
  from a b c show ?thesis
    using find_hidden_score_none extract_ft_score_default by blast
qed

lemma capture_no_score_patterns:
  "\<forall>line\<in>set capture_no_score. \<not> score_like (clean_text line)"
  by code_simp

lemma capture_no_score_ascii: "list_all ascii_text capture_no_score"
  by code_simp

theorem C7_witness:
  "list_all ascii_text capture_no_score
   \<and> find_hidden_score capture_no_score = None
   \<and> extract_all_data capture_no_score ''ft_score'' = Some (PStr ''0-0'')"
  using C7_hidden_score[of capture_no_score] capture_no_score_patterns capture_no_score_ascii
  by blast

subsection \<open>Single-word lines\<close>

lemma split_from_Nil: "split_from cur s = [] \<longleftrightarrow> cur = [] \<and> (\<forall>c\<in>set s. isspace c)"
  by (induction s arbitrary: cur) auto

lemma split_from_single:
  "split_from cur s = [w] \<Longrightarrow> s = [] \<or> \<not> isspace (last s) \<Longrightarrow>
   cur \<noteq> [] \<or> s = [] \<or> \<not> isspace (hd s) \<Longrightarrow> w = cur @ s"
proof (induction s arbitrary: cur)
  case Nil
  then show ?case by (simp split: if_splits)
next
  case (Cons c cs)
  show ?case
  proof (cases "isspace c")
    case True
    with Cons.prems(3) have cur: "cur \<noteq> []" by simp
    with True Cons.prems(1) have "split_from [] cs = []" by simp
    then have all: "\<forall>x\<in>set cs. isspace x" by (simp add: split_from_Nil)
    have "isspace (last (c # cs))"
    proof (cases "cs = []")
      case True
      with \<open>isspace c\<close> show ?thesis by simp
    next
      case False
      with all show ?thesis by simp
    qed
    with Cons.prems(2) show ?thesis by simp
  next
    case False
    with Cons.prems(1) have "split_from (cur @ [c]) cs = [w]" by simp
    moreover from Cons.prems(2) have "cs = [] \<or> \<not> isspace (last cs)" by (auto split: if_splits)
    ultimately have "w = (cur @ [c]) @ cs" by (rule Cons.IH) simp
    then show ?thesis by simp
  qed
qed

lemma split_strip_single: "split (strip line) = [word] \<Longrightarrow> strip line = word"
proof -
  assume a: "split (strip line) = [word]"
  then have "strip line \<noteq> []" by (auto simp: split_def)
  from strip_ends[OF this] a have "word = [] @ strip line"
    unfolding split_def by (intro split_from_single) simp_all
  then show ?thesis by simp
qed

lemma isalpha_not_numeric:
  "isalpha c \<Longrightarrow> \<not> (isdigit c \<or> isspace c \<or> c \<in> set ''-:.,%'')"
  by (auto simp: isalpha_def isdigit_def isspace_def)

lemma letter_count_pos: "0 < letter_count s \<Longrightarrow> \<exists>c\<in>set s. isalpha c"
  by (auto simp: letter_count_def filter_empty_conv)

lemma letters_not_pure_numeric: "0 < letter_count s \<Longrightarrow> \<not> pure_numeric s"
  using isalpha_not_numeric by (auto simp: pure_numeric_def list_all_iff dest!: letter_count_pos)

lemma common_words_length: "x \<in> set common_words \<Longrightarrow> length x = 1"
  by (auto simp: common_words_def)

lemma is_team_match_single:
  assumes "strip line = word" and "split word = [word]"
  shows "is_team_match line \<longleftrightarrow>
     (4 \<le> length word \<and> 7 * length word \<le> 10 * letter_count word
      \<and> \<not> list_ex (\<lambda>trm. contains (upper trm) (upper word)) skip_terms)"
proof (cases "4 \<le> length word \<and> 7 * length word \<le> 10 * letter_count word")
  case False
  with assms show ?thesis by (auto simp: is_team_match_def Let_def)
next
  case True
  then have pos: "0 < letter_count word" by auto
  then have "\<not> pure_numeric word" by (rule letters_not_pure_numeric)
  moreover from pos have "list_ex isalpha word" by (auto simp: list_ex_iff dest: letter_count_pos)
  moreover from True have "upper word \<notin> set common_words"
    using common_words_length[of "upper word"] by (auto simp: upper_def)
  ultimately show ?thesis using True assms by (simp add: is_team_match_def Let_def)
qed

text \<open>
  C8 (as amended). Let an ASCII line consist of a single word after stripping. If the word
  has at least four characters, at least 70 percent of them letters, and the line contains
  none of the entries of \<^verbatim>\<open>skip_terms\<close> (compared in upper case), then
  \<open>is_team_match\<close> accepts the line. If the word has fewer than four characters or less
  than 70 percent letters, \<open>is_team_match\<close> rejects the line.
\<close>

theorem C8_single_word_rule:
  assumes "ascii_text line" and "split (strip line) = [word]"
  shows "strip line = word
     \<and> (4 \<le> length word \<and> 7 * length word \<le> 10 * letter_count word
          \<and> \<not> list_ex (\<lambda>trm. contains (upper trm) (upper word)) skip_terms
        \<longrightarrow> is_team_match line)
     \<and> (length word < 4 \<or> 10 * letter_count word < 7 * length word \<longrightarrow> \<not> is_team_match line)"
proof -
  from assms(2) have w: "strip line = word" by (rule split_strip_single)
  with assms(2) have "split word = [word]" by simp
  from is_team_match_single[OF w this] w show ?thesis by auto
qed

lemma fenerbahce_single: "split (strip ''  Fenerbahce '') = [''Fenerbahce'']"
  by code_simp

lemma fenerbahce_no_skip_term:
  "\<not> list_ex (\<lambda>trm. contains (upper trm) (upper ''Fenerbahce'')) skip_terms"
  by code_simp

lemma ab12_single: "split (strip ''ab12'') = [''ab12'']"
  by code_simp

lemma single_words_ascii: "ascii_text ''  Fenerbahce ''" "ascii_text ''ab12''"
  by code_simp+

theorem C8_witness:
  "ascii_text ''  Fenerbahce '' \<and> ascii_text ''ab12''
   \<and> is_team_match ''  Fenerbahce '' \<and> \<not> is_team_match ''ab12''"
proof -
  have a: "4 \<le> length ''Fenerbahce'' \<and> 7 * length ''Fenerbahce'' \<le> 10 * letter_count ''Fenerbahce''"
    by code_simp
  have b: "10 * letter_count ''ab12'' < 7 * length ''ab12''" by code_simp
  from C8_single_word_rule[OF single_words_ascii(1) fenerbahce_single] a fenerbahce_no_skip_term
  have "is_team_match ''  Fenerbahce ''" by blast
  moreover from C8_single_word_rule[OF single_words_ascii(2) ab12_single] b
  have "\<not> is_team_match ''ab12''" by blast
  ultimately show ?thesis by (simp add: single_words_ascii)
qed

text \<open>
  A single word of five letters that \<open>is_team_match\<close> rejects: it is an entry of
  \<^verbatim>\<open>skip_terms\<close>, and the denylist is consulted before the word rule.
\<close>

theorem C8_counterexample:
  "split (strip ''Detay'') = [''Detay''] \<and> 4 \<le> length ''Detay''
   \<and> 7 * length ''Detay'' \<le> 10 * letter_count ''Detay'' \<and> \<not> is_team_match ''Detay''"
  by code_simp

subsection \<open>A capture without team candidates\<close>

lemma synth_teams_extract:
  "synth_teams (extract_all_data ocr_lines) now_hms = Inl (KeyError ''categories'')"
  by (simp add: synth_teams_def getitem_def extract_all_data_def Let_def)

lemma no_candidates_row_raises:
  "sc_team_candidates (scan_capture ocr_lines) = [] \<Longrightarrow>
   create_flexible_row (extract_all_data ocr_lines) now_hms now_full = Inl (KeyError ''categories'')"
  by (simp add: create_flexible_row_def getitem_def extract_teams extract_odds resolve_teams_def
      synth_teams_extract Let_def)

lemma extract_ft_score_shape: "\<exists>ft. extract_all_data ocr_lines ''ft_score'' = Some (PStr ft)"
  by (simp add: extract_all_data_def Let_def split: option.splits)

lemma no_candidates_nothing_forwarded:
  assumes "sc_team_candidates (scan_capture (filter (\<lambda>t. strip t \<noteq> []) texts)) = []"
  shows "process_capture append_row headers clk texts st = st"
proof -
  let ?L = "filter (\<lambda>t. strip t \<noteq> []) texts"
  obtain ft where "extract_all_data ?L ''ft_score'' = Some (PStr ft)"
    using extract_ft_score_shape by blast
  then show ?thesis
    using no_candidates_row_raises[OF assms] assms
    by (simp add: process_capture_def Let_def extract_teams extract_odds)
qed

lemma capture_three_odds_scan:
  "sc_team_candidates (scan_capture capture_three_odds) = []"
  "sc_odds (scan_capture capture_three_odds) = [''1,85'', ''3,20'', ''4,10'']"
  "filter (\<lambda>t. strip t \<noteq> []) capture_three_odds = capture_three_odds"
  by code_simp+

text \<open>
  C1. A capture without team candidates and with at least three odds is not forwarded with
  a placeholder in the teams field: the call that builds the row fails. On the capture of
  the three lines \<^verbatim>\<open>1,85\<close>, \<^verbatim>\<open>3,20\<close>, \<^verbatim>\<open>4,10\<close> the scan finds no team candidate
  and three odds; \<open>create_flexible_row\<close> raises \<^verbatim>\<open>KeyError('categories')\<close>, because
  the dictionary of \<open>extract_all_data\<close> has no such key and line 211 reads it before
  line 216 can build the placeholder; and the pass, which catches the exception, leaves the
  run state as it was, whatever the sink, the headers and the clock are.
\<close>

theorem C1_placeholder_row_raises:
  "sc_team_candidates (scan_capture capture_three_odds) = []
   \<and> length (sc_odds (scan_capture capture_three_odds)) = 3
   \<and> create_flexible_row (extract_all_data capture_three_odds) now_hms now_full
       = Inl (KeyError ''categories'')
   \<and> process_capture append_row headers clk capture_three_odds st = st"
  using no_candidates_row_raises[of capture_three_odds now_hms now_full]
    no_candidates_nothing_forwarded[of capture_three_odds append_row headers clk st]
  by (simp add: capture_three_odds_scan)

subsection \<open>The same capture twice\<close>

lemma capture_match_extracted:
  "filter (\<lambda>t. strip t \<noteq> []) capture_match = capture_match"
  "extract_all_data capture_match ''teams'' = Some (PStr ''Fenerbahce - Galatasaray'')"
  "extract_all_data capture_match ''odds'' = Some (PList [''1,85'', ''3,20'', ''4,10''])"
  "extract_all_data capture_match ''ft_score'' = Some (PStr ''0-0'')"
  "create_flexible_row (extract_all_data capture_match) ''12:00:01'' ''2024-01-01 12:00:01''
     = Inr row_match"
  "capture_match \<noteq> []"
  "length row_match = 20"
  by code_simp+

lemma pass_capture_match:
  assumes "worksheet (sheets (sheets_manager st)) = Some ws"
  shows "\<exists>hdr. worksheet (sheets (sheets_manager
                  (process_capture ideal_append_row headers clock_noon capture_match st)))
            = Some (ws @ hdr @ [row_match])
     \<and> headers_written (sheets_manager
            (process_capture ideal_append_row headers clock_noon capture_match st))
     \<and> processed_matches (process_capture ideal_append_row headers clock_noon capture_match st)
            = insert fingerprint_match (processed_matches st)
     \<and> (headers_written (sheets_manager st) \<longrightarrow> hdr = [])"
  using assms
  by (cases "headers_written (sheets_manager st)")
    (simp_all add: process_capture_def capture_match_extracted clock_noon_def Let_def
      write_data_def ensure_headers_def write_row_def ideal_append_row_def
      fingerprint_match_def)

text \<open>
  C3. A record whose fingerprint is already in \<^verbatim>\<open>processed_matches\<close> is forwarded
  again. Two passes read the same capture at the same reading of the clock, starting from a
  connected, empty sheet, with a sink that accepts every row. After the first pass the
  fingerprint of the capture is in \<^verbatim>\<open>processed_matches\<close> and the last row of the sheet
  is the row of the capture; the second pass appends the same row once more. The pass adds
  to the set and never tests membership in it.
\<close>

theorem C3_seen_fingerprint_forwarded_again:
  "fingerprint_match \<in> processed_matches (first_pass headers)
   \<and> last (sink_rows (first_pass headers)) = row_match
   \<and> sink_rows (process_capture ideal_append_row headers clock_noon capture_match (first_pass headers))
       = sink_rows (first_pass headers) @ [row_match]"
proof -
  have "worksheet (sheets (sheets_manager connected)) = Some []" by (simp add: connected_def)
  from pass_capture_match[OF this, of headers] obtain hdr where
    ws1: "worksheet (sheets (sheets_manager (first_pass headers))) = Some (hdr @ [row_match])"
    and hw: "headers_written (sheets_manager (first_pass headers))"
    and pm: "fingerprint_match \<in> processed_matches (first_pass headers)"
    unfolding first_pass_def by auto
  from pass_capture_match[OF ws1, of headers] hw
  have "worksheet (sheets (sheets_manager
          (process_capture ideal_append_row headers clock_noon capture_match (first_pass headers))))
        = Some ((hdr @ [row_match]) @ [row_match])"
    by auto
  with ws1 pm show ?thesis by (simp add: sink_rows_def)
qed

subsection \<open>The forwarded row\<close>

lemma first_pass_rows:
  "sink_rows (first_pass headers)
     = [[PStr ''=== FLEXIBLE TURKISH PARSER ==='', PStr ''2024-01-01 12:00:01''],
        (if length headers < 10 then headers @ [PStr ''2024-01-01 12:00:01''] else headers),
        row_match]"
  by (simp add: first_pass_def process_capture_def capture_match_extracted clock_noon_def
      connected_def Let_def write_data_def ensure_headers_def write_row_def ideal_append_row_def
      sink_rows_def)

text \<open>
  C4. The row a pass forwards does not have 17 positions. The first pass over a capture of
  two teams and three odds, on a connected, empty sheet that accepts every row, writes the
  separator row, the header row and the row of the capture. The header row is the list of
  titles it was given (seventeen in the source, twelve of them for odds); the row of the
  capture has 20 cells. Its sixteenth and seventeenth cells, the columns P and Q that the
  source's comment gives to the metadata, hold odds cells; the timestamp and the status
  note are the nineteenth and twentieth.
\<close>

theorem C4_forwarded_row_has_twenty_cells:
  "sink_rows (first_pass headers)
     = [[PStr ''=== FLEXIBLE TURKISH PARSER ==='', PStr ''2024-01-01 12:00:01''],
        (if length headers < 10 then headers @ [PStr ''2024-01-01 12:00:01''] else headers),
        row_match]
   \<and> length row_match = 20
   \<and> row_match ! 15 = PStr ''0'' \<and> row_match ! 16 = PStr ''0''
   \<and> row_match ! 18 = PStr ''2024-01-01 12:00:01''
   \<and> row_match ! 19 = PStr ''Active - 3 odds found''"
proof -
  have "length row_match = 20
     \<and> row_match ! 15 = PStr ''0'' \<and> row_match ! 16 = PStr ''0''
     \<and> row_match ! 18 = PStr ''2024-01-01 12:00:01''
     \<and> row_match ! 19 = PStr ''Active - 3 odds found''"
    by code_simp
  with first_pass_rows show ?thesis by simp
qed

subsection \<open>The cleanup pass keeps the first row of every key\<close>

lemma dedup_loop_eq:
  "dedup_loop rows seen keep n =
     (seen \<union> match_key ` {r \<in> set rows. length r > 2}, keep @ first_seen seen rows,
      n + dup_count seen rows)"
  by (induction rows arbitrary: seen keep n) auto

lemma first_seen_long:
  "r \<in> set (first_seen seen rows) \<Longrightarrow> length r > 2 \<and> match_key r \<notin> seen \<and> r \<in> set rows"
  by (induction rows arbitrary: seen) (auto split: if_splits)

lemma first_seen_distinct: "distinct (map match_key (first_seen seen rows))"
  by (induction rows arbitrary: seen) (auto dest: first_seen_long)

lemma first_seen_keys:
  "match_key ` set (first_seen seen rows) = match_key ` {r \<in> set rows. length r > 2} - seen"
  by (induction rows arbitrary: seen) auto

lemma first_seen_subseq: "subseq (first_seen seen rows) (filter (\<lambda>r. length r > 2) rows)"
  by (induction rows arbitrary: seen) auto

lemma first_seen_find:
  "r \<in> set (first_seen seen rows) \<Longrightarrow>
   find (\<lambda>x. match_key x = match_key r) (filter (\<lambda>r. length r > 2) rows) = Some r"
proof (induction rows arbitrary: seen)
  case Nil
  then show ?case by simp
next
  case (Cons a rows)
  show ?case
  proof (cases "length a > 2")
    case False
    with Cons show ?thesis by simp
  next
    case long: True
    show ?thesis
    proof (cases "match_key a \<in> seen")
      case True
      with Cons.prems long have r: "r \<in> set (first_seen seen rows)" by simp
      then have "match_key r \<notin> seen" using first_seen_long by blast
      with r Cons.IH True long show ?thesis by auto
    next
      case False
      with Cons.prems long
      have "r = a \<or> r \<in> set (first_seen (insert (match_key a) seen) rows)" by simp
      then show ?thesis
      proof
        assume "r = a"
        with long show ?thesis by simp
      next
        assume r: "r \<in> set (first_seen (insert (match_key a) seen) rows)"
        then have "match_key r \<noteq> match_key a" using first_seen_long by fastforce
        with r Cons.IH long show ?thesis by auto
      qed
    qed
  qed
qed

lemma dup_count_zero_keeps:
  "dup_count seen rows = 0 \<Longrightarrow> first_seen seen rows = filter (\<lambda>r. length r > 2) rows"
  by (induction rows arbitrary: seen) (auto split: if_splits)

lemma dup_count_distinct:
  "distinct (map match_key xs) \<Longrightarrow> match_key ` set xs \<inter> seen = {} \<Longrightarrow> dup_count seen xs = 0"
proof (induction xs arbitrary: seen)
  case Nil
  then show ?case by simp
next
  case (Cons a xs)
  from Cons.prems have "match_key ` set xs \<inter> insert (match_key a) seen = {}" by auto
  moreover from Cons.prems have "match_key ` set xs \<inter> seen = {}" by auto
  ultimately show ?case using Cons by auto
qed

lemma dup_count_first_seen: "dup_count {} (first_seen {} rows) = 0"
  by (rule dup_count_distinct[OF first_seen_distinct]) simp

lemma first_seen_all_long:
  "filter (\<lambda>r. length r > 2) (first_seen seen rows) = first_seen seen rows"
  by (induction rows arbitrary: seen) auto

lemma remove_duplicates_connected:
  "worksheet self = Some ws \<Longrightarrow>
   remove_duplicates self =
     (if length ws \<le> 1 \<or> dup_count {} (tl ws) = 0 then Inr (self, 0)
      else Inr (self\<lparr>worksheet := Some (hd ws # first_seen {} (tl ws))\<rparr>, dup_count {} (tl ws)))"
  by (simp add: remove_duplicates_def dedup_loop_eq)

lemma remove_duplicates_data_rows:
  assumes "remove_duplicates self = Inr (s1, n)"
    and "worksheet self = Some ws" and "worksheet s1 = Some ws1"
  shows "data_rows ws1 = first_seen {} (tl ws)"
proof (cases "length ws \<le> 1 \<or> dup_count {} (tl ws) = 0")
  case True
  with assms have "ws1 = ws" by (simp add: remove_duplicates_connected)
  moreover have "first_seen {} (tl ws) = filter (\<lambda>r. length r > 2) (tl ws)"
  proof (cases "length ws \<le> 1")
    case True
    then have "tl ws = []" by (cases ws) auto
    then show ?thesis by simp
  next
    case False
    with True show ?thesis by (simp add: dup_count_zero_keeps)
  qed
  ultimately show ?thesis by (simp add: data_rows_def)
next
  case False
  with assms have "ws1 = hd ws # first_seen {} (tl ws)"
    by (auto simp add: remove_duplicates_connected)
  then show ?thesis by (simp add: data_rows_def first_seen_all_long)
qed

text \<open>
  C9. The cleanup pass of the sheet is idempotent. When \<open>remove_duplicates\<close> returns on a
  sheet, a second call on the result counts zero duplicates and leaves the sheet, hence its
  number of rows, as it is. Each call keeps the first row of every key: among the rows
  below the header that have a key, the result holds pairwise different keys, in the order
  of the input, every key of the input, and for each key the first input row that has it;
  the header row stays in place.
\<close>

theorem C9_remove_duplicates_idempotent:
  assumes "remove_duplicates self = Inr (s1, n)"
    and "worksheet self = Some ws" and "worksheet s1 = Some ws1"
  shows "remove_duplicates s1 = Inr (s1, 0)
     \<and> distinct (map match_key (data_rows ws1))
     \<and> subseq (data_rows ws1) (data_rows ws)
     \<and> match_key ` set (data_rows ws1) = match_key ` set (data_rows ws)
     \<and> (\<forall>r\<in>set (data_rows ws1). find (\<lambda>x. match_key x = match_key r) (data_rows ws) = Some r)
     \<and> (ws \<noteq> [] \<longrightarrow> ws1 \<noteq> [] \<and> hd ws1 = hd ws)"
proof -
  have again: "remove_duplicates s1 = Inr (s1, 0)"
  proof (cases "length ws \<le> 1 \<or> dup_count {} (tl ws) = 0")
    case True
    with assms have "s1 = self" by (simp add: remove_duplicates_connected)
    with True assms(2) show ?thesis by (simp add: remove_duplicates_connected)
  next
    case False
    with assms have "ws1 = hd ws # first_seen {} (tl ws)"
      by (auto simp add: remove_duplicates_connected)
    with assms(3) show ?thesis
      by (simp add: remove_duplicates_connected dup_count_first_seen)
  qed
  have fs: "data_rows ws1 = first_seen {} (tl ws)"
    using assms by (rule remove_duplicates_data_rows)
  have hdr: "ws \<noteq> [] \<longrightarrow> ws1 \<noteq> [] \<and> hd ws1 = hd ws"
    using assms by (auto simp add: remove_duplicates_connected split: if_splits)
  have keys: "match_key ` set (first_seen {} (tl ws)) = match_key ` set (data_rows ws)"
    using first_seen_keys[of "{}" "tl ws"] by (simp add: data_rows_def)
  have "distinct (map match_key (data_rows ws1))"
    unfolding fs by (rule first_seen_distinct)
  moreover have "subseq (data_rows ws1) (data_rows ws)"
    unfolding fs by (simp add: data_rows_def first_seen_subseq)
  moreover have "match_key ` set (data_rows ws1) = match_key ` set (data_rows ws)"
    unfolding fs by (rule keys)
  moreover have "\<forall>r\<in>set (data_rows ws1).
      find (\<lambda>x. match_key x = match_key r) (data_rows ws) = Some r"
    unfolding fs by (simp add: data_rows_def first_seen_find)
  ultimately show ?thesis using again hdr by blast
qed

lemma remove_duplicates_example:
  "remove_duplicates sheet_with_duplicate = Inr (sheet_deduplicated, 1)"
  by (simp add: remove_duplicates_def sheet_with_duplicate_def sheet_deduplicated_def match_key_def)

theorem C9_remove_duplicates_idempotent_witness:
  "remove_duplicates sheet_with_duplicate = Inr (sheet_deduplicated, 1)
   \<and> remove_duplicates sheet_deduplicated = Inr (sheet_deduplicated, 0)
   \<and> data_rows (the (worksheet sheet_deduplicated)) =
       [[''Super Lig'', ''2024-01-01'', ''A - B'', ''1.85''],
        [''Super Lig'', ''2024-01-02'', ''C - D'', ''2.10'']]"
proof -
  have w: "worksheet sheet_deduplicated = Some (the (worksheet sheet_deduplicated))"
    by (simp add: sheet_deduplicated_def)
  have w0: "worksheet sheet_with_duplicate = Some (the (worksheet sheet_with_duplicate))"
    by (simp add: sheet_with_duplicate_def)
  from C9_remove_duplicates_idempotent[OF remove_duplicates_example w0 w]
  have "remove_duplicates sheet_deduplicated = Inr (sheet_deduplicated, 0)" by blast
  then show ?thesis
    by (simp add: remove_duplicates_example) (simp add: sheet_deduplicated_def data_rows_def)
qed






text \<open>
  The hypothesis on the rows is needed. On a ragged list, which \<^verbatim>\<open>get_all_values\<close> does
  not deliver, the loop skips a short row without appending it to \<^verbatim>\<open>rows_to_keep\<close>,
  and a rewrite caused by some duplicate leaves it out.
\<close>

lemma ragged_short_row_dropped:
  "remove_duplicates
     \<lparr>sheet_name = ''Mackolik Matches'',
      worksheet = Some [[''League'', ''Date'', ''Teams''],
                        [''Super Lig'', ''2024-01-01'', ''A - B''],
                        [''note''],
                        [''Super Lig'', ''2024-01-01'', ''A - B'']]\<rparr>
   = Inr (\<lparr>sheet_name = ''Mackolik Matches'',
           worksheet = Some [[''League'', ''Date'', ''Teams''],
                             [''Super Lig'', ''2024-01-01'', ''A - B'']]\<rparr>, 1)"
  by (simp add: remove_duplicates_def match_key_def)

end
